theory Spec2Isabelle
  imports Complex_Main "HOL-Library.Word"
begin

section \<open>Values of the host language\<close>

text \<open>
  A JavaScript string is a sequence of UTF-16 code units; \<open>length\<close> counts them, as
  the \<open>.length\<close> property does. A JavaScript number is modelled as an exact rational:
  rounding of doubles, \<open>NaN\<close> and the infinities are outside the model. Instants
  returned by \<open>Date.now()\<close> are integers (milliseconds).
\<close>

type_synonym jstring = "16 word list"

type_synonym number = rat

definition js :: "string \<Rightarrow> jstring" where
  "js s = map (\<lambda>c. of_nat (of_char c)) s"

datatype jsval =
    JUndefined
  | JNull
  | JBool bool
  | JNum number
  | JStr jstring
  | JObj "(jstring \<times> jsval) list"
  | JError jstring

text \<open>\<open>JError m\<close> is an instance of \<open>Error\<close> whose \<open>message\<close> is \<open>m\<close>;
  \<open>JObj\<close> is any other object, given by its properties.\<close>

fun truthy :: "jsval \<Rightarrow> bool" where
  "truthy JUndefined = False"
| "truthy JNull = False"
| "truthy (JBool b) = b"
| "truthy (JNum n) = (n \<noteq> 0)"
| "truthy (JStr s) = (s \<noteq> [])"
| "truthy (JObj ps) = True"
| "truthy (JError m) = True"

section \<open>Data model (types.ts)\<close>

datatype tool_status = Pending | Success | Error

datatype access_status = AccessSuccess | AccessError

datatype operation = Read | Write | List

datatype error_type = Tool | Resource | Prompt | Server

record metadata =
  modelName :: "jstring option"
  userId :: "jstring option"
  sessionId :: "jstring option"

text \<open>The argument of \<open>recordToolCall\<close>: \<open>Omit<MCPToolCall, 'id' | 'timestamp'>\<close>.
  An optional field is an \<open>option\<close>; \<open>None\<close> is \<open>undefined\<close>.\<close>

record tool_call_fields =
  toolName :: jstring
  params :: jsval
  duration :: "number option"
  status :: tool_status
  error :: "jstring option"
  result :: "jsval option"
  metadata :: "metadata option"

record MCPToolCall = tool_call_fields +
  id :: jstring
  timestamp :: int

record resource_access_fields =
  resourceUri :: jstring
  ra_operation :: operation
  ra_duration :: "number option"
  ra_status :: access_status
  ra_error :: "jstring option"
  bytesTransferred :: "number option"

record MCPResourceAccess = resource_access_fields +
  ra_id :: jstring
  ra_timestamp :: int

record prompt_call_fields =
  promptName :: jstring
  args :: jsval
  pc_duration :: "number option"
  pc_status :: access_status
  pc_error :: "jstring option"
  tokensGenerated :: "number option"

record MCPPromptCall = prompt_call_fields +
  pc_id :: jstring
  pc_timestamp :: int

record error_log_fields =
  el_type :: error_type
  el_name :: jstring
  el_error :: jstring
  stackTrace :: "jstring option"

record ErrorLog = error_log_fields +
  el_id :: jstring
  el_timestamp :: int

record alerting_config =
  errorRateThreshold :: number
  latencyThreshold :: number

record MonitorConfig =
  serverName :: jstring
  port :: number
  retentionDays :: number
  enableWebUI :: bool
  enableMetricsExport :: bool
  alerting :: "alerting_config option"

section \<open>The telemetry collector: state and ingestion\<close>

text \<open>What the collector hands to \<open>EventEmitter.emit\<close>, by event name.\<close>

datatype event =
    tool_call MCPToolCall
  | resource_access MCPResourceAccess
  | prompt_call MCPPromptCall
  | mcp_error ErrorLog

text \<open>
  The private fields of \<open>TelemetryCollector\<close>. \<open>emitted\<close> is the sequence of
  events passed to \<open>emit\<close>, oldest first: observers are outside the collector, and
  \<open>emit\<close> is taken to return normally.
\<close>

record collector =
  toolCalls :: "MCPToolCall list"
  resourceAccesses :: "MCPResourceAccess list"
  promptCalls :: "MCPPromptCall list"
  errors :: "ErrorLog list"
  startTime :: int
  config :: MonitorConfig
  latencies :: "number list"
  requestTimestamps :: "int list"
  emitted :: "event list"

text \<open>The constructor: empty logs, start time read from the clock.\<close>

definition new_collector :: "MonitorConfig \<Rightarrow> int \<Rightarrow> collector" where
  "new_collector cfg now =
     \<lparr> toolCalls = [], resourceAccesses = [], promptCalls = [], errors = [],
       startTime = now, config = cfg, latencies = [], requestTimestamps = [],
       emitted = [] \<rparr>"

text \<open>
  One ingestion reads the environment up to five times: \<open>nanoid()\<close> and
  \<open>Date.now()\<close> for the event, \<open>Date.now()\<close> in \<open>recordRequest\<close>, and
  \<open>nanoid()\<close> and \<open>Date.now()\<close> in \<open>recordError\<close>. The values read are the
  argument \<open>rd\<close> of the ingestion operations.
\<close>

record ingest_reads =
  event_id :: jstring
  event_now :: int
  request_now :: int
  error_id :: jstring
  error_now :: int

text \<open>\<open>e || 'Unknown error'\<close>: the default replaces \<open>undefined\<close> and the empty string.\<close>

definition or_default :: "jstring option \<Rightarrow> jstring \<Rightarrow> jstring" where
  "or_default e d = (case e of None \<Rightarrow> d | Some m \<Rightarrow> if m = [] then d else m)"

definition recordError :: "jstring \<Rightarrow> int \<Rightarrow> error_log_fields \<Rightarrow> collector \<Rightarrow> collector" where
  "recordError new_id now e s =
     (let errorLog = \<lparr> el_type = el_type e, el_name = el_name e, el_error = el_error e,
                        stackTrace = stackTrace e, el_id = new_id, el_timestamp = now \<rparr>
      in s\<lparr> errors := errors s @ [errorLog],
            emitted := emitted s @ [mcp_error errorLog] \<rparr>)"

definition recordRequest :: "int \<Rightarrow> number option \<Rightarrow> collector \<Rightarrow> collector" where
  "recordRequest now d s =
     (let s1 = s\<lparr> requestTimestamps := requestTimestamps s @ [now] \<rparr>
      in case d of None \<Rightarrow> s1 | Some x \<Rightarrow> s1\<lparr> latencies := latencies s1 @ [x] \<rparr>)"

definition recordToolCall :: "ingest_reads \<Rightarrow> tool_call_fields \<Rightarrow> collector \<Rightarrow> collector" where
  "recordToolCall rd call s =
     (let toolCall = \<lparr> toolName = toolName call, params = params call,
                        duration = duration call, status = status call,
                        error = error call, result = result call,
                        metadata = metadata call,
                        id = event_id rd, timestamp = event_now rd \<rparr>;
          s1 = s\<lparr> toolCalls := toolCalls s @ [toolCall] \<rparr>;
          s2 = recordRequest (request_now rd) (duration toolCall) s1;
          s3 = (if status toolCall = Error
                then recordError (error_id rd) (error_now rd)
                       \<lparr> el_type = Tool, el_name = toolName toolCall,
                         el_error = or_default (error toolCall) (js ''Unknown error''),
                         stackTrace = None \<rparr> s2
                else s2)
      in s3\<lparr> emitted := emitted s3 @ [tool_call toolCall] \<rparr>)"

definition recordResourceAccess ::
  "ingest_reads \<Rightarrow> resource_access_fields \<Rightarrow> collector \<Rightarrow> collector" where
  "recordResourceAccess rd access s =
     (let resourceAccess = \<lparr> resourceUri = resourceUri access,
                              ra_operation = ra_operation access,
                              ra_duration = ra_duration access,
                              ra_status = ra_status access,
                              ra_error = ra_error access,
                              bytesTransferred = bytesTransferred access,
                              ra_id = event_id rd, ra_timestamp = event_now rd \<rparr>;
          s1 = s\<lparr> resourceAccesses := resourceAccesses s @ [resourceAccess] \<rparr>;
          s2 = recordRequest (request_now rd) (ra_duration resourceAccess) s1;
          s3 = (if ra_status resourceAccess = AccessError
                then recordError (error_id rd) (error_now rd)
                       \<lparr> el_type = Resource, el_name = resourceUri resourceAccess,
                         el_error = or_default (ra_error resourceAccess) (js ''Unknown error''),
                         stackTrace = None \<rparr> s2
                else s2)
      in s3\<lparr> emitted := emitted s3 @ [resource_access resourceAccess] \<rparr>)"

definition recordPromptCall ::
  "ingest_reads \<Rightarrow> prompt_call_fields \<Rightarrow> collector \<Rightarrow> collector" where
  "recordPromptCall rd call s =
     (let promptCall = \<lparr> promptName = promptName call, args = args call,
                          pc_duration = pc_duration call, pc_status = pc_status call,
                          pc_error = pc_error call,
                          tokensGenerated = tokensGenerated call,
                          pc_id = event_id rd, pc_timestamp = event_now rd \<rparr>;
          s1 = s\<lparr> promptCalls := promptCalls s @ [promptCall] \<rparr>;
          s2 = recordRequest (request_now rd) (pc_duration promptCall) s1;
          s3 = (if pc_status promptCall = AccessError
                then recordError (error_id rd) (error_now rd)
                       \<lparr> el_type = Prompt, el_name = promptName promptCall,
                         el_error = or_default (pc_error promptCall) (js ''Unknown error''),
                         stackTrace = None \<rparr> s2
                else s2)
      in s3\<lparr> emitted := emitted s3 @ [prompt_call promptCall] \<rparr>)"

section \<open>The snapshot (getMetrics)\<close>

text \<open>
  The interfaces of the snapshot. A percentile is the result of an array read, which is
  \<open>undefined\<close> out of range: the three percentile fields are options, and \<open>None\<close>
  is \<open>undefined\<close>.
\<close>

record PerformanceMetrics =
  avgLatency :: number
  p50Latency :: "number option"
  p95Latency :: "number option"
  p99Latency :: "number option"
  requestsPerSecond :: nat
  errorRate :: number
  successRate :: number

record ToolMetrics =
  tm_name :: jstring
  callCount :: nat
  successCount :: nat
  errorCount :: nat
  avgDuration :: number
  lastCalled :: int
  tm_errors :: "jstring list"

record ResourceMetrics =
  uri :: jstring
  accessCount :: nat
  rm_successCount :: nat
  rm_errorCount :: nat
  totalBytesTransferred :: number
  rm_avgDuration :: number

record PromptMetrics =
  pm_name :: jstring
  pm_callCount :: nat
  pm_successCount :: nat
  pm_errorCount :: nat
  pm_avgDuration :: number
  totalTokens :: number

record ServerMetrics =
  sm_serverName :: jstring
  uptime :: int
  totalRequests :: nat
  successfulRequests :: nat
  failedRequests :: int
  avgResponseTime :: number
  requestsPerMinute :: nat
  tools :: "ToolMetrics list"
  resources :: "ResourceMetrics list"
  prompts :: "PromptMetrics list"
  sm_errors :: "ErrorLog list"
  performance :: PerformanceMetrics

subsection \<open>Arrays and maps of the host language\<close>

text \<open>
  A \<open>Map\<close> keeps its keys in insertion order: \<open>set\<close> on a key that is present
  replaces the value where it stands, on a new key it adds the entry at the end.
\<close>

fun map_set :: "('k \<times> 'v) list \<Rightarrow> 'k \<Rightarrow> 'v \<Rightarrow> ('k \<times> 'v) list" where
  "map_set [] k v = [(k, v)]"
| "map_set ((k', v') # m) k v = (if k' = k then (k, v) # m else (k', v') # map_set m k v)"

text \<open>\<open>xs.reduce((a, b) => a + b, 0)\<close>.\<close>

definition reduce_add :: "number list \<Rightarrow> number" where
  "reduce_add xs = foldl (\<lambda>a b. a + b) 0 xs"

text \<open>\<open>xs.slice(-n)\<close>: the last \<open>n\<close> elements, all of them when there are fewer.\<close>

definition slice_last :: "nat \<Rightarrow> 'a list \<Rightarrow> 'a list" where
  "slice_last n xs = drop (length xs - n) xs"

text \<open>An array read \<open>xs[i]\<close> at an integer \<open>i \<ge> 0\<close>: \<open>undefined\<close> (here \<open>None\<close>)
  at and beyond the length.\<close>

definition array_get :: "'a list \<Rightarrow> int \<Rightarrow> 'a option" where
  "array_get xs i = (if 0 \<le> i \<and> nat i < length xs then Some (xs ! nat i) else None)"

text \<open>The mean that the three per-name passes and the two global ones compute.\<close>

definition average :: "number list \<Rightarrow> number" where
  "average durations =
     (if length durations > 0 then reduce_add durations / of_nat (length durations) else 0)"

subsection \<open>Per-name aggregates\<close>

definition tool_step :: "(jstring \<times> ToolMetrics) list \<Rightarrow> MCPToolCall \<Rightarrow> (jstring \<times> ToolMetrics) list" where
  "tool_step toolMap call =
     (let existing = (case map_of toolMap (toolName call) of
                        Some m \<Rightarrow> m
                      | None \<Rightarrow> \<lparr> tm_name = toolName call, callCount = 0, successCount = 0,
                                   errorCount = 0, avgDuration = 0, lastCalled = 0,
                                   tm_errors = [] \<rparr>);
          e1 = existing\<lparr> callCount := callCount existing + 1 \<rparr>;
          e2 = (if status call = Success then e1\<lparr> successCount := successCount e1 + 1 \<rparr> else e1);
          e3 = (if status call = Error
                then (let e = e2\<lparr> errorCount := errorCount e2 + 1 \<rparr>
                      in case error call of
                           None \<Rightarrow> e
                         | Some m \<Rightarrow> if m \<noteq> [] then e\<lparr> tm_errors := tm_errors e @ [m] \<rparr> else e)
                else e2);
          e4 = e3\<lparr> lastCalled := max (lastCalled e3) (timestamp call) \<rparr>
      in map_set toolMap (toolName call) e4)"

definition calculateToolMetrics :: "collector \<Rightarrow> ToolMetrics list \<times> collector" where
  "calculateToolMetrics s =
     (let toolMap = foldl tool_step [] (toolCalls s);
          toolMap' = map (\<lambda>(name, metrics).
                       (name, metrics\<lparr> avgDuration :=
                          average (map (\<lambda>c. the (duration c))
                            (filter (\<lambda>c. toolName c = name \<and> duration c \<noteq> None)
                               (toolCalls s))) \<rparr>)) toolMap
      in (map snd toolMap', s))"

definition resource_step ::
  "(jstring \<times> ResourceMetrics) list \<Rightarrow> MCPResourceAccess \<Rightarrow> (jstring \<times> ResourceMetrics) list" where
  "resource_step resourceMap access =
     (let existing = (case map_of resourceMap (resourceUri access) of
                        Some m \<Rightarrow> m
                      | None \<Rightarrow> \<lparr> uri = resourceUri access, accessCount = 0,
                                   rm_successCount = 0, rm_errorCount = 0,
                                   totalBytesTransferred = 0, rm_avgDuration = 0 \<rparr>);
          e1 = existing\<lparr> accessCount := accessCount existing + 1 \<rparr>;
          e2 = (if ra_status access = AccessSuccess
                then e1\<lparr> rm_successCount := rm_successCount e1 + 1 \<rparr> else e1);
          e3 = (if ra_status access = AccessError
                then e2\<lparr> rm_errorCount := rm_errorCount e2 + 1 \<rparr> else e2);
          e4 = (case bytesTransferred access of
                  None \<Rightarrow> e3
                | Some b \<Rightarrow> if b \<noteq> 0
                            then e3\<lparr> totalBytesTransferred := totalBytesTransferred e3 + b \<rparr>
                            else e3)
      in map_set resourceMap (resourceUri access) e4)"

definition calculateResourceMetrics :: "collector \<Rightarrow> ResourceMetrics list \<times> collector" where
  "calculateResourceMetrics s =
     (let resourceMap = foldl resource_step [] (resourceAccesses s);
          resourceMap' = map (\<lambda>(u, metrics).
                       (u, metrics\<lparr> rm_avgDuration :=
                          average (map (\<lambda>r. the (ra_duration r))
                            (filter (\<lambda>r. resourceUri r = u \<and> ra_duration r \<noteq> None)
                               (resourceAccesses s))) \<rparr>)) resourceMap
      in (map snd resourceMap', s))"

definition prompt_step ::
  "(jstring \<times> PromptMetrics) list \<Rightarrow> MCPPromptCall \<Rightarrow> (jstring \<times> PromptMetrics) list" where
  "prompt_step promptMap call =
     (let existing = (case map_of promptMap (promptName call) of
                        Some m \<Rightarrow> m
                      | None \<Rightarrow> \<lparr> pm_name = promptName call, pm_callCount = 0,
                                   pm_successCount = 0, pm_errorCount = 0,
                                   pm_avgDuration = 0, totalTokens = 0 \<rparr>);
          e1 = existing\<lparr> pm_callCount := pm_callCount existing + 1 \<rparr>;
          e2 = (if pc_status call = AccessSuccess
                then e1\<lparr> pm_successCount := pm_successCount e1 + 1 \<rparr> else e1);
          e3 = (if pc_status call = AccessError
                then e2\<lparr> pm_errorCount := pm_errorCount e2 + 1 \<rparr> else e2);
          e4 = (case tokensGenerated call of
                  None \<Rightarrow> e3
                | Some t \<Rightarrow> if t \<noteq> 0 then e3\<lparr> totalTokens := totalTokens e3 + t \<rparr> else e3)
      in map_set promptMap (promptName call) e4)"

definition calculatePromptMetrics :: "collector \<Rightarrow> PromptMetrics list \<times> collector" where
  "calculatePromptMetrics s =
     (let promptMap = foldl prompt_step [] (promptCalls s);
          promptMap' = map (\<lambda>(name, metrics).
                       (name, metrics\<lparr> pm_avgDuration :=
                          average (map (\<lambda>p. the (pc_duration p))
                            (filter (\<lambda>p. promptName p = name \<and> pc_duration p \<noteq> None)
                               (promptCalls s))) \<rparr>)) promptMap
      in (map snd promptMap', s))"

subsection \<open>Global performance\<close>

definition percentile :: "number list \<Rightarrow> number \<Rightarrow> number option" where
  "percentile sortedL p =
     (if length sortedL = 0 then Some 0
      else (let index = \<lceil>of_nat (length sortedL) * p\<rceil> - 1
            in array_get sortedL (max 0 index)))"

definition calculateRequestsPerSecond :: "int \<Rightarrow> collector \<Rightarrow> nat \<times> collector" where
  "calculateRequestsPerSecond now s =
     (let oneSecondAgo = now - 1000;
          recentRequests = filter (\<lambda>t. t \<ge> oneSecondAgo) (requestTimestamps s)
      in (length recentRequests, s))"

definition calculateRequestsPerMinute :: "int \<Rightarrow> collector \<Rightarrow> nat \<times> collector" where
  "calculateRequestsPerMinute now s =
     (let oneMinuteAgo = now - 60000;
          recentRequests = filter (\<lambda>t. t \<ge> oneMinuteAgo) (requestTimestamps s)
      in (length recentRequests, s))"

definition calculateAvgDuration :: "collector \<Rightarrow> number \<times> collector" where
  "calculateAvgDuration s =
     (if length (latencies s) = 0 then (0, s)
      else (reduce_add (latencies s) / of_nat (length (latencies s)), s))"

text \<open>
  \<open>[...this.latencies].sort((a, b) => a - b)\<close> sorts a copy of the duration log in
  ascending numeric order; the stored log is not the array that is sorted.
\<close>

definition calculatePerformance :: "int \<Rightarrow> collector \<Rightarrow> PerformanceMetrics \<times> collector" where
  "calculatePerformance rps_now s =
     (let sortedLatencies = sort (latencies s);
          total = length (toolCalls s) + length (resourceAccesses s) + length (promptCalls s);
          errs = length (errors s);
          (rps, s1) = calculateRequestsPerSecond rps_now s
      in (\<lparr> avgLatency = (if length sortedLatencies > 0
                           then reduce_add sortedLatencies / of_nat (length sortedLatencies)
                           else 0),
            p50Latency = percentile sortedLatencies (50 / 100),
            p95Latency = percentile sortedLatencies (95 / 100),
            p99Latency = percentile sortedLatencies (99 / 100),
            requestsPerSecond = rps,
            errorRate = (if total > 0 then (of_nat errs / of_nat total) * 100 else 0),
            successRate = (if total > 0
                           then ((of_nat total - of_nat errs) / of_nat total) * 100
                           else 100) \<rparr>, s1))"

text \<open>The three clock reads of one snapshot: in \<open>getMetrics\<close> itself, in
  \<open>calculateRequestsPerSecond\<close> and in \<open>calculateRequestsPerMinute\<close>.\<close>

record snapshot_reads =
  now_uptime :: int
  now_rps :: int
  now_rpm :: int

definition getMetrics :: "snapshot_reads \<Rightarrow> collector \<Rightarrow> ServerMetrics \<times> collector" where
  "getMetrics rd s0 =
     (let now = now_uptime rd;
          up = now - startTime s0;
          (toolMetrics, s1) = calculateToolMetrics s0;
          (resourceMetrics, s2) = calculateResourceMetrics s1;
          (promptMetrics, s3) = calculatePromptMetrics s2;
          (perf, s4) = calculatePerformance (now_rps rd) s3;
          total = length (toolCalls s4) + length (resourceAccesses s4) + length (promptCalls s4);
          successful = length
             (map tool_call (filter (\<lambda>c. status c = Success) (toolCalls s4))
              @ map resource_access (filter (\<lambda>r. ra_status r = AccessSuccess) (resourceAccesses s4))
              @ map prompt_call (filter (\<lambda>p. pc_status p = AccessSuccess) (promptCalls s4)));
          (avgDur, s5) = calculateAvgDuration s4;
          (rpm, s6) = calculateRequestsPerMinute (now_rpm rd) s5
      in (\<lparr> sm_serverName = serverName (config s6),
            uptime = up,
            totalRequests = total,
            successfulRequests = successful,
            failedRequests = int total - int successful,
            avgResponseTime = avgDur,
            requestsPerMinute = rpm,
            tools = toolMetrics,
            resources = resourceMetrics,
            prompts = promptMetrics,
            sm_errors = slice_last 100 (errors s6),
            performance = perf \<rparr>, s6))"

section \<open>Eviction and reset\<close>

text \<open>\<open>cleanup\<close> reads the clock once. A timestamp is an integer, the cutoff a number.\<close>

definition cleanup :: "int \<Rightarrow> collector \<Rightarrow> collector" where
  "cleanup now s =
     (let retentionMs = retentionDays (config s) * 24 * 60 * 60 * 1000;
          cutoff = of_int now - retentionMs
      in s\<lparr> toolCalls := filter (\<lambda>c. of_int (timestamp c) \<ge> cutoff) (toolCalls s),
            resourceAccesses := filter (\<lambda>r. of_int (ra_timestamp r) \<ge> cutoff) (resourceAccesses s),
            promptCalls := filter (\<lambda>p. of_int (pc_timestamp p) \<ge> cutoff) (promptCalls s),
            errors := filter (\<lambda>e. of_int (el_timestamp e) \<ge> cutoff) (errors s),
            latencies := slice_last 10000 (latencies s),
            requestTimestamps := filter (\<lambda>t. of_int t \<ge> cutoff) (requestTimestamps s) \<rparr>)"

definition reset :: "int \<Rightarrow> collector \<Rightarrow> collector" where
  "reset now s =
     s\<lparr> toolCalls := [], resourceAccesses := [], promptCalls := [], errors := [],
        latencies := [], requestTimestamps := [], startTime := now \<rparr>"

section \<open>The interceptor (interceptor.ts)\<close>

text \<open>
  A capability is called with its positional arguments and awaited. Its outcome is the
  value it returns or resolves to, the value it throws or rejects with, or none when it
  never settles. A capability does not reach the collector by itself.
\<close>

datatype outcome = Returns jsval | Throws jsval | Never

type_synonym capability = "jsval list \<Rightarrow> outcome"

text \<open>
  A wrapped call reads the clock before and after the original call; the reads of the
  ingestion it makes follow. The collector is shared state, so a wrapped capability
  takes the collector and returns it with the outcome.
\<close>

record wrap_reads =
  start_now :: int
  end_now :: int
  ingest :: ingest_reads

type_synonym wrapped = "wrap_reads \<Rightarrow> jsval list \<Rightarrow> collector \<Rightarrow> outcome \<times> collector"

text \<open>\<open>args[0] || {}\<close>.\<close>

definition first_arg_or_empty :: "jsval list \<Rightarrow> jsval" where
  "first_arg_or_empty as =
     (case as of [] \<Rightarrow> JObj [] | a # _ \<Rightarrow> if truthy a then a else JObj [])"

text \<open>
  \<open>error instanceof Error ? error.message : String(error)\<close>. The conversion
  \<open>String\<close> of the host language is the parameter \<open>str\<close>.
\<close>

definition error_message :: "(jsval \<Rightarrow> jstring) \<Rightarrow> jsval \<Rightarrow> jstring" where
  "error_message str e = (case e of JError m \<Rightarrow> m | _ \<Rightarrow> str e)"

text \<open>The code units that \<open>\s\<close> matches in a regular expression.\<close>

definition is_space :: "16 word \<Rightarrow> bool" where
  "is_space c \<longleftrightarrow>
     c \<in> set [0x0009, 0x000A, 0x000B, 0x000C, 0x000D, 0x0020, 0x00A0, 0x1680,
              0x2028, 0x2029, 0x202F, 0x205F, 0x3000, 0xFEFF]
     \<or> (0x2000 \<le> c \<and> c \<le> 0x200A)"

text \<open>
  \<open>s.split(/\s+/)\<close>: the pieces of \<open>s\<close> between the maximal runs of white space.
  \<open>piece\<close> is the piece read so far.
\<close>

function split_from :: "jstring \<Rightarrow> jstring \<Rightarrow> jstring list" where
  "split_from piece [] = [piece]"
| "split_from piece (c # cs) =
     (if is_space c then piece # split_from [] (dropWhile is_space cs)
      else split_from (piece @ [c]) cs)"
  by pat_completeness auto

termination
  by (relation "measure (\<lambda>(piece, cs). length cs)")
     (auto simp: length_dropWhile_le less_Suc_eq_le)

definition split_ws :: "jstring \<Rightarrow> jstring list" where
  "split_ws s = split_from [] s"


definition wrapResource :: "(jsval \<Rightarrow> jstring) \<Rightarrow> jstring \<Rightarrow> capability \<Rightarrow> wrapped" where
  "wrapResource str name resource = (\<lambda>rd as s.
     (let startT = start_now rd
      in case resource as of
           Returns res \<Rightarrow>
             (let d = end_now rd - startT;
                  s' = recordResourceAccess (ingest rd)
                         \<lparr> resourceUri = name, ra_operation = Read,
                           ra_duration = Some (of_int d), ra_status = AccessSuccess,
                           ra_error = None,
                           bytesTransferred =
                             Some (case res of JStr str_res \<Rightarrow> of_nat (length str_res) | _ \<Rightarrow> 0) \<rparr> s
              in (Returns res, s'))
         | Throws e \<Rightarrow>
             (let d = end_now rd - startT;
                  s' = recordResourceAccess (ingest rd)
                         \<lparr> resourceUri = name, ra_operation = Read,
                           ra_duration = Some (of_int d), ra_status = AccessError,
                           ra_error = Some (error_message str e),
                           bytesTransferred = None \<rparr> s
              in (Throws e, s'))
         | Never \<Rightarrow> (Never, s)))"

definition wrapPrompt :: "(jsval \<Rightarrow> jstring) \<Rightarrow> jstring \<Rightarrow> capability \<Rightarrow> wrapped" where
  "wrapPrompt str name prompt = (\<lambda>rd as s.
     (let startT = start_now rd;
          promptArgs = first_arg_or_empty as
      in case prompt as of
           Returns res \<Rightarrow>
             (let d = end_now rd - startT;
                  s' = recordPromptCall (ingest rd)
                         \<lparr> promptName = name, args = promptArgs,
                           pc_duration = Some (of_int d), pc_status = AccessSuccess,
                           pc_error = None,
                           tokensGenerated =
                             Some (case res of
                                     JStr str_res \<Rightarrow> of_nat (length (split_ws str_res))
                                   | _ \<Rightarrow> 0) \<rparr> s
              in (Returns res, s'))
         | Throws e \<Rightarrow>
             (let d = end_now rd - startT;
                  s' = recordPromptCall (ingest rd)
                         \<lparr> promptName = name, args = promptArgs,
                           pc_duration = Some (of_int d), pc_status = AccessError,
                           pc_error = Some (error_message str e),
                           tokensGenerated = None \<rparr> s
              in (Throws e, s'))
         | Never \<Rightarrow> (Never, s)))"



section \<open>Notions of the specification\<close>

text \<open>
  The record that an ingestion of \<open>call\<close> stores.
\<close>

definition tool_record :: "ingest_reads \<Rightarrow> tool_call_fields \<Rightarrow> MCPToolCall" where
  "tool_record rd call =
     \<lparr> toolName = toolName call, params = params call, duration = duration call,
       status = status call, error = error call, result = result call,
       metadata = metadata call, id = event_id rd, timestamp = event_now rd \<rparr>"

text \<open>
  A sequence of tool-call ingestions, each with its own reads.
\<close>

definition recordToolCalls ::
  "(ingest_reads \<times> tool_call_fields) list \<Rightarrow> collector \<Rightarrow> collector" where
  "recordToolCalls cs s = foldl (\<lambda>s' (rd, call). recordToolCall rd call s') s cs"

text \<open>
  The durations that a sequence of ingestions supplies, in order.
\<close>

definition supplied_durations :: "(ingest_reads \<times> tool_call_fields) list \<Rightarrow> number list" where
  "supplied_durations cs =
     concat (map (\<lambda>(rd, call). case duration call of None \<Rightarrow> [] | Some d \<Rightarrow> [d]) cs)"

text \<open>
  The arithmetic mean, 0 for no values.
\<close>

definition mean :: "number list \<Rightarrow> number" where
  "mean ds = (if ds = [] then 0 else sum_list ds / of_nat (length ds))"

text \<open>
  The per-name aggregate of a snapshot: the entry of the tool list with that name; its
  \<open>errorCount\<close>, 0 when the name has no entry.
\<close>

definition tool_aggregate :: "ServerMetrics \<Rightarrow> jstring \<Rightarrow> ToolMetrics option" where
  "tool_aggregate m name = find (\<lambda>t. tm_name t = name) (tools m)"


text \<open>
  What the first pass of \<open>calculateToolMetrics\<close> is to have counted for a name.
\<close>

definition counts_ok :: "MCPToolCall list \<Rightarrow> jstring \<Rightarrow> ToolMetrics \<Rightarrow> bool" where
  "counts_ok calls n m \<longleftrightarrow>
     tm_name m = n
     \<and> callCount m = length (filter (\<lambda>c. toolName c = n) calls)
     \<and> successCount m = length (filter (\<lambda>c. toolName c = n \<and> status c = Success) calls)
     \<and> errorCount m = length (filter (\<lambda>c. toolName c = n \<and> status c = Error) calls)"

text \<open>
  Nearest rank: index \<open>ceil(n \<times> p) - 1\<close>, clamped to \<open>[0, n - 1]\<close>.
\<close>

definition nearest_rank_index :: "nat \<Rightarrow> number \<Rightarrow> nat" where
  "nearest_rank_index n p = nat (max 0 (min (int n - 1) (\<lceil>of_nat n * p\<rceil> - 1)))"

text \<open>
  The retention cutoff of a sweep at \<open>now\<close>: \<open>now - retentionDays \<times> 24 \<times> 60 \<times> 60 \<times> 1000\<close>.
\<close>

definition retention_cutoff :: "int \<Rightarrow> collector \<Rightarrow> number" where
  "retention_cutoff now s = of_int now - retentionDays (config s) * 24 * 60 * 60 * 1000"






text \<open>
  The notion of the specification, in its words: the white-space-delimited word count
  of a string, the number of its maximal runs of code units that are not white space.
  \<open>pieces\<close> is what the source computes, the length of \<open>split(/\s+/)\<close>.
\<close>

function word_count :: "jstring \<Rightarrow> nat" where
  "word_count [] = 0"
| "word_count (c # cs) =
     (if is_space c then word_count cs
      else 1 + word_count (dropWhile (\<lambda>x. \<not> is_space x) cs))"
  by pat_completeness auto
termination
  by (relation "measure length") (auto simp: length_dropWhile_le less_Suc_eq_le)

definition pieces :: "jstring \<Rightarrow> nat" where
  "pieces s = length (split_ws s)"

subsection \<open>Sample inputs\<close>

definition sample_config :: MonitorConfig where
  "sample_config =
     \<lparr> serverName = js ''test'', port = 3000, retentionDays = 1, enableWebUI = False,
       enableMetricsExport = True, alerting = None \<rparr>"

definition sample_reads :: "int \<Rightarrow> ingest_reads" where
  "sample_reads t =
     \<lparr> event_id = js ''e'', event_now = t, request_now = t, error_id = js ''f'',
       error_now = t \<rparr>"

definition sample_call :: "jstring \<Rightarrow> tool_status \<Rightarrow> jstring option \<Rightarrow> number \<Rightarrow> tool_call_fields" where
  "sample_call name st err d =
     \<lparr> toolName = name, params = JObj [], duration = Some d, status = st, error = err,
       result = None, metadata = None \<rparr>"

definition sample_access :: "access_status \<Rightarrow> jstring option \<Rightarrow> resource_access_fields" where
  "sample_access st err =
     \<lparr> resourceUri = js ''file:///test.txt'', ra_operation = Read, ra_duration = Some 50,
       ra_status = st, ra_error = err, bytesTransferred = None \<rparr>"

definition sample_prompt :: "access_status \<Rightarrow> jstring option \<Rightarrow> prompt_call_fields" where
  "sample_prompt st err =
     \<lparr> promptName = js ''test-prompt'', args = JObj [], pc_duration = Some 200,
       pc_status = st, pc_error = err, tokensGenerated = None \<rparr>"

definition sample_snapshot :: snapshot_reads where
  "sample_snapshot = \<lparr> now_uptime = 1000, now_rps = 1000, now_rpm = 1000 \<rparr>"

definition sample_log :: "number list \<Rightarrow> collector" where
  "sample_log ds =
     recordToolCalls (map (\<lambda>d. (sample_reads 1, sample_call (js ''test-tool'') Success None d)) ds)
       (new_collector sample_config 0)"

definition sample_mixed :: "(ingest_reads \<times> tool_call_fields) list" where
  "sample_mixed =
     [(sample_reads 1, sample_call (js ''read-file'') Success None 100),
      (sample_reads 2, sample_call (js ''read-file'') Success None 200),
      (sample_reads 3, sample_call (js ''read-file'') Error (Some (js ''File not found'')) 50)]"


definition sample_aged :: collector where
  "sample_aged =
     recordToolCall (sample_reads 100000000) (sample_call (js ''tool'') Success None 20)
       (recordToolCall (sample_reads 0) (sample_call (js ''tool'') Error (Some (js ''boom'')) 10)
          (new_collector sample_config 0))"



definition sample_str :: "jsval \<Rightarrow> jstring" where
  "sample_str v = (case v of JStr s \<Rightarrow> s | _ \<Rightarrow> js ''[object Object]'')"


definition sample_wrap_reads :: wrap_reads where
  "sample_wrap_reads = \<lparr> start_now = 100, end_now = 130, ingest = sample_reads 130 \<rparr>"

section \<open>Lists, sums and maps\<close>

lemma reduce_add_sum: "reduce_add xs = sum_list xs"
proof -
  have "foldl (\<lambda>a b. a + b) a xs = a + sum_list xs" for a :: rat
    by (induction xs arbitrary: a) (simp_all add: add.assoc)
  then show ?thesis by (simp add: reduce_add_def)
qed

lemma sum_list_insort: "sum_list (insort a xs) = a + sum_list (xs :: number list)"
  by (induction xs) simp_all

lemma sum_list_sort: "sum_list (sort xs) = sum_list (xs :: number list)"
  by (induction xs) (simp_all add: sum_list_insort)

lemma mean_sort: "mean (sort xs) = mean xs"
proof -
  have "sort xs = [] \<longleftrightarrow> xs = []" by (metis length_sort length_0_conv)
  then show ?thesis by (simp add: mean_def sum_list_sort)
qed

lemma average_mean: "average ds = mean ds"
  by (simp add: average_def mean_def reduce_add_sum)

lemma map_of_map_set: "map_of (map_set m k v) = (map_of m)(k \<mapsto> v)"
  by (induction m k v rule: map_set.induct) auto

lemma fst_set_map_set: "fst ` set (map_set m k v) = insert k (fst ` set m)"
  by (induction m k v rule: map_set.induct) auto

lemma distinct_map_set: "distinct (map fst m) \<Longrightarrow> distinct (map fst (map_set m k v))"
proof (induction m k v rule: map_set.induct)
  case (1 k v)
  then show ?case by simp
next
  case (2 k' v' m k v)
  then show ?case using fst_set_map_set [of m k v] by auto
qed

lemma map_of_map_keyed:
  "map_of (map (\<lambda>(k, v). (k, f k v)) M) n = map_option (f n) (map_of M n)"
  by (induction M) auto

lemma find_by_key:
  "distinct (map fst M) \<Longrightarrow> \<forall>(k, m) \<in> set M. tm_name m = k \<Longrightarrow>
   find (\<lambda>t. tm_name t = n) (map snd M) = map_of M n"
  by (induction M) auto

lemma dropWhile_last: "dropWhile P cs \<noteq> [] \<Longrightarrow> last (c # cs) = last (dropWhile P cs)"
proof -
  assume a: "dropWhile P cs \<noteq> []"
  then have "cs \<noteq> []" by auto
  have "last cs = last (takeWhile P cs @ dropWhile P cs)" by simp
  also have "\<dots> = last (dropWhile P cs)" using a by (rule last_appendR)
  finally show ?thesis using \<open>cs \<noteq> []\<close> by simp
qed

lemma dropWhile_Nil_last: "dropWhile P cs = [] \<Longrightarrow> P c \<Longrightarrow> P (last (c # cs))"
proof -
  assume a: "dropWhile P cs = []" and c: "P c"
  then have "\<forall>x \<in> set (c # cs). P x" by simp
  moreover have "last (c # cs) \<in> set (c # cs)" by (rule last_in_set) simp
  ultimately show ?thesis by blast
qed

section \<open>Ingestion\<close>

lemma recordRequest_errors: "errors (recordRequest now d s) = errors s"
  by (simp add: recordRequest_def Let_def split: option.splits)

lemma recordRequest_toolCalls: "toolCalls (recordRequest now d s) = toolCalls s"
  by (simp add: recordRequest_def Let_def split: option.splits)


lemma tool_record_sel [simp]:
  "toolName (tool_record rd call) = toolName call"
  "status (tool_record rd call) = status call"
  "duration (tool_record rd call) = duration call"
  "error (tool_record rd call) = error call"
  "timestamp (tool_record rd call) = event_now rd"
  by (simp_all add: tool_record_def)

lemma recordToolCall_toolCalls:
  "toolCalls (recordToolCall rd call s) = toolCalls s @ [tool_record rd call]"
  by (simp add: recordToolCall_def recordError_def recordRequest_toolCalls tool_record_def Let_def)

lemma recordToolCall_latencies:
  "latencies (recordToolCall rd call s)
     = latencies s @ (case duration call of None \<Rightarrow> [] | Some d \<Rightarrow> [d])"
  by (simp add: recordToolCall_def recordError_def recordRequest_def Let_def split: option.splits)




lemma recordResourceAccess_log:
  "resourceAccesses (recordResourceAccess rd access s)
     = resourceAccesses s @
       [\<lparr> resourceUri = resourceUri access, ra_operation = ra_operation access,
          ra_duration = ra_duration access, ra_status = ra_status access,
          ra_error = ra_error access, bytesTransferred = bytesTransferred access,
          ra_id = event_id rd, ra_timestamp = event_now rd \<rparr>]"
  by (simp add: recordResourceAccess_def recordError_def recordRequest_def Let_def
      split: option.splits)

lemma recordPromptCall_log:
  "promptCalls (recordPromptCall rd pcall s)
     = promptCalls s @
       [\<lparr> promptName = promptName pcall, args = args pcall, pc_duration = pc_duration pcall,
          pc_status = pc_status pcall, pc_error = pc_error pcall,
          tokensGenerated = tokensGenerated pcall,
          pc_id = event_id rd, pc_timestamp = event_now rd \<rparr>]"
  by (simp add: recordPromptCall_def recordError_def recordRequest_def Let_def
      split: option.splits)

lemma recordToolCalls_snoc:
  "recordToolCalls (cs @ [(rd, call)]) s = recordToolCall rd call (recordToolCalls cs s)"
  by (simp add: recordToolCalls_def)

lemma recordToolCalls_toolCalls:
  "toolCalls (recordToolCalls cs s) = toolCalls s @ map (\<lambda>(rd, call). tool_record rd call) cs"
proof (induction cs rule: rev_induct)
  case Nil
  then show ?case by (simp add: recordToolCalls_def)
next
  case (snoc x cs)
  then show ?case
    by (cases x) (simp add: recordToolCalls_snoc recordToolCall_toolCalls)
qed

lemma recordToolCalls_latencies:
  "latencies (recordToolCalls cs s) = latencies s @ supplied_durations cs"
proof (induction cs rule: rev_induct)
  case Nil
  then show ?case by (simp add: recordToolCalls_def supplied_durations_def)
next
  case (snoc x cs)
  then show ?case
    by (cases x) (simp add: recordToolCalls_snoc recordToolCall_latencies supplied_durations_def)
qed




lemma sample_log_latencies: "latencies (sample_log ds) = ds"
proof -
  have "supplied_durations (map (\<lambda>d. (sample_reads 1, sample_call (js ''test-tool'') Success None d)) ds) = ds"
    by (induction ds) (simp_all add: supplied_durations_def sample_call_def)
  then show ?thesis
    by (simp add: sample_log_def recordToolCalls_latencies new_collector_def)
qed

text \<open>
  Claim C10. An ingestion of a tool call, a resource access or a prompt call with status
  error appends exactly one record to the error log: its type is the kind of the
  ingestion, its name the name of the event, its message the error string supplied, or
  \<open>Unknown error\<close> when that string is absent or empty. An ingestion with another
  status leaves the error log as it is.
\<close>

theorem error_record_derivation:
  "(status call = Error \<longrightarrow>
      errors (recordToolCall rd call s) = errors s @
        [\<lparr> el_type = Tool, el_name = toolName call,
           el_error = (if error call = None \<or> error call = Some [] then js ''Unknown error''
                       else the (error call)),
           stackTrace = None, el_id = error_id rd, el_timestamp = error_now rd \<rparr>])
   \<and> (status call \<noteq> Error \<longrightarrow> errors (recordToolCall rd call s) = errors s)
   \<and> (ra_status access = AccessError \<longrightarrow>
      errors (recordResourceAccess rd access s) = errors s @
        [\<lparr> el_type = Resource, el_name = resourceUri access,
           el_error = (if ra_error access = None \<or> ra_error access = Some []
                       then js ''Unknown error'' else the (ra_error access)),
           stackTrace = None, el_id = error_id rd, el_timestamp = error_now rd \<rparr>])
   \<and> (ra_status access \<noteq> AccessError \<longrightarrow>
      errors (recordResourceAccess rd access s) = errors s)
   \<and> (pc_status pcall = AccessError \<longrightarrow>
      errors (recordPromptCall rd pcall s) = errors s @
        [\<lparr> el_type = Prompt, el_name = promptName pcall,
           el_error = (if pc_error pcall = None \<or> pc_error pcall = Some []
                       then js ''Unknown error'' else the (pc_error pcall)),
           stackTrace = None, el_id = error_id rd, el_timestamp = error_now rd \<rparr>])
   \<and> (pc_status pcall \<noteq> AccessError \<longrightarrow>
      errors (recordPromptCall rd pcall s) = errors s)"
  by (auto simp: recordToolCall_def recordResourceAccess_def recordPromptCall_def
      recordError_def recordRequest_errors or_default_def Let_def split: option.splits)

theorem error_record_derivation_witness:
  "errors (recordToolCall (sample_reads 5) (sample_call (js ''failing-tool'') Error (Some []) 10)
       (new_collector sample_config 0))
     = [\<lparr> el_type = Tool, el_name = js ''failing-tool'', el_error = js ''Unknown error'',
          stackTrace = None, el_id = js ''f'', el_timestamp = 5 \<rparr>]
   \<and> errors (recordToolCall (sample_reads 5) (sample_call (js ''tool'') Pending None 10)
       (new_collector sample_config 0)) = []
   \<and> errors (recordResourceAccess (sample_reads 5) (sample_access AccessError (Some (js ''denied'')))
       (new_collector sample_config 0))
     = [\<lparr> el_type = Resource, el_name = js ''file:///test.txt'', el_error = js ''denied'',
          stackTrace = None, el_id = js ''f'', el_timestamp = 5 \<rparr>]
   \<and> errors (recordResourceAccess (sample_reads 5) (sample_access AccessSuccess None)
       (new_collector sample_config 0)) = []
   \<and> errors (recordPromptCall (sample_reads 5) (sample_prompt AccessError None)
       (new_collector sample_config 0))
     = [\<lparr> el_type = Prompt, el_name = js ''test-prompt'', el_error = js ''Unknown error'',
          stackTrace = None, el_id = js ''f'', el_timestamp = 5 \<rparr>]
   \<and> errors (recordPromptCall (sample_reads 5) (sample_prompt AccessSuccess None)
       (new_collector sample_config 0)) = []"
  using
    error_record_derivation [where rd = "sample_reads 5" and s = "new_collector sample_config 0"
      and call = "sample_call (js ''failing-tool'') Error (Some []) 10"
      and access = "sample_access AccessError (Some (js ''denied''))"
      and pcall = "sample_prompt AccessError None"]
    error_record_derivation [where rd = "sample_reads 5" and s = "new_collector sample_config 0"
      and call = "sample_call (js ''tool'') Pending None 10"
      and access = "sample_access AccessSuccess None"
      and pcall = "sample_prompt AccessSuccess None"]
  by (simp add: sample_call_def sample_access_def sample_prompt_def sample_reads_def
      new_collector_def js_def)

section \<open>The snapshot leaves the collector as it is\<close>

lemma calculateToolMetrics_state: "snd (calculateToolMetrics s) = s"
  by (simp add: calculateToolMetrics_def Let_def)

lemma calculateResourceMetrics_state: "snd (calculateResourceMetrics s) = s"
  by (simp add: calculateResourceMetrics_def Let_def)

lemma calculatePromptMetrics_state: "snd (calculatePromptMetrics s) = s"
  by (simp add: calculatePromptMetrics_def Let_def)

lemma calculateRequestsPerSecond_state: "snd (calculateRequestsPerSecond now s) = s"
  by (simp add: calculateRequestsPerSecond_def Let_def)

lemma calculateRequestsPerMinute_state: "snd (calculateRequestsPerMinute now s) = s"
  by (simp add: calculateRequestsPerMinute_def Let_def)

lemma calculateAvgDuration_state: "snd (calculateAvgDuration s) = s"
  by (simp add: calculateAvgDuration_def)

lemma calculatePerformance_state: "snd (calculatePerformance now s) = s"
  by (simp add: calculatePerformance_def Let_def case_prod_beta calculateRequestsPerSecond_state)

lemmas snapshot_state = calculateToolMetrics_state calculateResourceMetrics_state
  calculatePromptMetrics_state calculatePerformance_state calculateAvgDuration_state
  calculateRequestsPerMinute_state calculateRequestsPerSecond_state

text \<open>
  Claim C7. The snapshot is read-only: the state of the collector after \<open>getMetrics\<close>
  is the state before it, so every stored log (tool calls, resource accesses, prompt
  calls, errors, durations, timestamps) and the start time are unchanged; the same
  holds of \<open>calculatePerformance\<close>, which sorts a copy of the duration log.
\<close>

theorem snapshot_read_only:
  "snd (getMetrics rd s) = s
   \<and> snd (calculatePerformance now s) = s
   \<and> toolCalls (snd (getMetrics rd s)) = toolCalls s
   \<and> resourceAccesses (snd (getMetrics rd s)) = resourceAccesses s
   \<and> promptCalls (snd (getMetrics rd s)) = promptCalls s
   \<and> errors (snd (getMetrics rd s)) = errors s
   \<and> latencies (snd (getMetrics rd s)) = latencies s
   \<and> requestTimestamps (snd (getMetrics rd s)) = requestTimestamps s
   \<and> startTime (snd (getMetrics rd s)) = startTime s"
  by (simp add: getMetrics_def Let_def case_prod_beta snapshot_state)

section \<open>The fields of a snapshot\<close>

lemma getMetrics_performance:
  "performance (fst (getMetrics rd s)) = fst (calculatePerformance (now_rps rd) s)"
  by (simp add: getMetrics_def Let_def case_prod_beta snapshot_state)

lemma performance_fields:
  "p50Latency (fst (calculatePerformance now s)) = percentile (sort (latencies s)) (50 / 100)"
  "p95Latency (fst (calculatePerformance now s)) = percentile (sort (latencies s)) (95 / 100)"
  "p99Latency (fst (calculatePerformance now s)) = percentile (sort (latencies s)) (99 / 100)"
  "avgLatency (fst (calculatePerformance now s)) = mean (sort (latencies s))"
  "errorRate (fst (calculatePerformance now s)) =
     (if length (toolCalls s) + length (resourceAccesses s) + length (promptCalls s) > 0
      then of_nat (length (errors s))
           / of_nat (length (toolCalls s) + length (resourceAccesses s) + length (promptCalls s)) * 100
      else 0)"
  "successRate (fst (calculatePerformance now s)) =
     (if length (toolCalls s) + length (resourceAccesses s) + length (promptCalls s) > 0
      then (of_nat (length (toolCalls s) + length (resourceAccesses s) + length (promptCalls s))
             - of_nat (length (errors s)))
           / of_nat (length (toolCalls s) + length (resourceAccesses s) + length (promptCalls s)) * 100
      else 100)"
  by (simp_all add: calculatePerformance_def Let_def case_prod_beta reduce_add_sum mean_def)


lemma getMetrics_tools: "tools (fst (getMetrics rd s)) = fst (calculateToolMetrics s)"
  by (simp add: getMetrics_def Let_def case_prod_beta)


section \<open>Percentiles\<close>

lemma rank_bounds:
  fixes p :: rat
  assumes "0 < n" "0 < p" "p \<le> 1"
  shows "1 \<le> \<lceil>of_nat n * p\<rceil>" and "\<lceil>of_nat n * p\<rceil> \<le> int n"
proof -
  have "0 < (of_nat n :: rat) * p" using assms by simp
  then show "1 \<le> \<lceil>of_nat n * p\<rceil>" by (simp add: int_one_le_iff_zero_less)
  have "(of_nat n :: rat) * p \<le> of_nat n * 1"
    using assms by (intro mult_left_mono) auto
  then have "(of_nat n :: rat) * p \<le> of_int (int n)" by simp
  then show "\<lceil>of_nat n * p\<rceil> \<le> int n" by (simp only: ceiling_le_iff)
qed

lemma percentile_nearest_rank:
  assumes "l \<noteq> []" "0 < p" "p \<le> 1"
  shows "percentile l p = Some (l ! nearest_rank_index (length l) p)"
    and "nearest_rank_index (length l) p < length l"
    and "nearest_rank_index (length l) p = nat (\<lceil>of_nat (length l) * p\<rceil> - 1)"
proof -
  define k where "k = \<lceil>of_nat (length l) * p\<rceil>"
  have n: "0 < length l" using assms by simp
  have b: "1 \<le> k" "k \<le> int (length l)"
    unfolding k_def using rank_bounds [OF n assms(2,3)] by blast+
  have idx: "nearest_rank_index (length l) p = nat (k - 1)"
    unfolding nearest_rank_index_def k_def [symmetric] using b by linarith
  show "nearest_rank_index (length l) p = nat (\<lceil>of_nat (length l) * p\<rceil> - 1)"
    using idx by (simp only: k_def)
  show "nearest_rank_index (length l) p < length l"
    using idx b by linarith
  have "percentile l p = array_get l (max 0 (k - 1))"
    using assms(1) by (simp add: percentile_def Let_def k_def)
  also have "\<dots> = Some (l ! nat (k - 1))"
    using b by (simp add: array_get_def max_def)
  finally show "percentile l p = Some (l ! nearest_rank_index (length l) p)"
    by (simp only: idx)
qed

lemma percentile_empty: "percentile [] p = Some 0"
  by (simp add: percentile_def)

lemma rank_index_mono:
  assumes "p \<le> q"
  shows "nearest_rank_index n p \<le> nearest_rank_index n q"
proof -
  have "(of_nat n :: rat) * p \<le> of_nat n * q"
    using assms by (intro mult_left_mono) auto
  then have "\<lceil>of_nat n * p\<rceil> \<le> \<lceil>of_nat n * q\<rceil>" by (rule ceiling_mono)
  then show ?thesis by (simp add: nearest_rank_index_def)
qed

lemma percentile_mono:
  assumes "l \<noteq> []" "0 < p" "p \<le> q" "q \<le> 1"
  shows "\<exists>a b. percentile (sort l) p = Some a \<and> percentile (sort l) q = Some b \<and> a \<le> b"
proof -
  have l: "sort l \<noteq> []" using assms(1) by (metis length_sort length_0_conv)
  have p: "0 < p" "p \<le> 1" and q: "0 < q" "q \<le> 1" using assms by auto
  have "sort l ! nearest_rank_index (length (sort l)) p \<le> sort l ! nearest_rank_index (length (sort l)) q"
    using rank_index_mono [OF assms(3)] percentile_nearest_rank(2) [OF l q]
    by (intro sorted_nth_mono) auto
  then show ?thesis
    using percentile_nearest_rank(1) [OF l p] percentile_nearest_rank(1) [OF l q] by simp
qed

text \<open>
  Claim C2. The percentiles of a snapshot are nearest-rank values: for a duration log of
  size \<open>n > 0\<close> and \<open>p\<close> one of 0.50, 0.95 and 0.99, the percentile is the
  element at index \<open>ceil(n \<times> p) - 1\<close>, clamped to \<open>[0, n - 1]\<close>, of the log
  sorted ascending, and it is 0 for the empty log. For the durations 10, 20, 30, 40, 50,
  100, 200, 300, 400, 500 the average latency is 165, p50 is 50, p95 and p99 are 500.
\<close>

theorem percentile_is_nearest_rank:
  "(latencies s \<noteq> [] \<longrightarrow>
      p50Latency (performance (fst (getMetrics rd s)))
        = Some (sort (latencies s) ! nearest_rank_index (length (latencies s)) (50 / 100))
    \<and> p95Latency (performance (fst (getMetrics rd s)))
        = Some (sort (latencies s) ! nearest_rank_index (length (latencies s)) (95 / 100))
    \<and> p99Latency (performance (fst (getMetrics rd s)))
        = Some (sort (latencies s) ! nearest_rank_index (length (latencies s)) (99 / 100))
    \<and> nearest_rank_index (length (latencies s)) (99 / 100) < length (latencies s))
   \<and> (latencies s = [] \<longrightarrow>
      p50Latency (performance (fst (getMetrics rd s))) = Some 0
    \<and> p95Latency (performance (fst (getMetrics rd s))) = Some 0
    \<and> p99Latency (performance (fst (getMetrics rd s))) = Some 0)
   \<and> (latencies s = [10, 20, 30, 40, 50, 100, 200, 300, 400, 500] \<longrightarrow>
      avgLatency (performance (fst (getMetrics rd s))) = 165
    \<and> p50Latency (performance (fst (getMetrics rd s))) = Some 50
    \<and> p95Latency (performance (fst (getMetrics rd s))) = Some 500
    \<and> p99Latency (performance (fst (getMetrics rd s))) = Some 500)"
proof (intro conjI impI)
  assume ne: "latencies s \<noteq> []"
  then have l: "sort (latencies s) \<noteq> []" by (metis length_sort length_0_conv)
  show "p50Latency (performance (fst (getMetrics rd s)))
        = Some (sort (latencies s) ! nearest_rank_index (length (latencies s)) (50 / 100))"
    using percentile_nearest_rank(1) [OF l, of "50 / 100"]
    by (simp add: getMetrics_performance performance_fields)
  show "p95Latency (performance (fst (getMetrics rd s)))
        = Some (sort (latencies s) ! nearest_rank_index (length (latencies s)) (95 / 100))"
    using percentile_nearest_rank(1) [OF l, of "95 / 100"]
    by (simp add: getMetrics_performance performance_fields)
  show "p99Latency (performance (fst (getMetrics rd s)))
        = Some (sort (latencies s) ! nearest_rank_index (length (latencies s)) (99 / 100))"
    using percentile_nearest_rank(1) [OF l, of "99 / 100"]
    by (simp add: getMetrics_performance performance_fields)
  show "nearest_rank_index (length (latencies s)) (99 / 100) < length (latencies s)"
    using percentile_nearest_rank(2) [OF ne, of "99 / 100"] by simp
next
  assume "latencies s = []"
  then show "p50Latency (performance (fst (getMetrics rd s))) = Some 0"
    "p95Latency (performance (fst (getMetrics rd s))) = Some 0"
    "p99Latency (performance (fst (getMetrics rd s))) = Some 0"
    by (simp_all add: getMetrics_performance performance_fields percentile_empty)
next
  assume ex: "latencies s = [10, 20, 30, 40, 50, 100, 200, 300, 400, 500]"
  have srt: "sort (latencies s) = [10, 20, 30, 40, 50, 100, 200, 300, 400, 500]"
    by (simp add: ex)
  show "avgLatency (performance (fst (getMetrics rd s))) = 165"
    by (simp add: getMetrics_performance performance_fields mean_sort ex mean_def)
  have "percentile [10, 20, 30, 40, 50, 100, 200, 300, 400, 500] (50 / 100) = Some 50"
    by code_simp
  then show "p50Latency (performance (fst (getMetrics rd s))) = Some 50"
    by (simp only: getMetrics_performance performance_fields srt)
  have "percentile [10, 20, 30, 40, 50, 100, 200, 300, 400, 500] (95 / 100) = Some 500"
    by code_simp
  then show "p95Latency (performance (fst (getMetrics rd s))) = Some 500"
    by (simp only: getMetrics_performance performance_fields srt)
  have "percentile [10, 20, 30, 40, 50, 100, 200, 300, 400, 500] (99 / 100) = Some 500"
    by code_simp
  then show "p99Latency (performance (fst (getMetrics rd s))) = Some 500"
    by (simp only: getMetrics_performance performance_fields srt)
qed

theorem percentile_is_nearest_rank_witness:
  "latencies (sample_log [10, 20, 30, 40, 50, 100, 200, 300, 400, 500])
     = [10, 20, 30, 40, 50, 100, 200, 300, 400, 500]
   \<and> avgLatency (performance (fst (getMetrics sample_snapshot
        (sample_log [10, 20, 30, 40, 50, 100, 200, 300, 400, 500])))) = 165
   \<and> p50Latency (performance (fst (getMetrics sample_snapshot
        (sample_log [10, 20, 30, 40, 50, 100, 200, 300, 400, 500])))) = Some 50
   \<and> p95Latency (performance (fst (getMetrics sample_snapshot
        (sample_log [10, 20, 30, 40, 50, 100, 200, 300, 400, 500])))) = Some 500
   \<and> p99Latency (performance (fst (getMetrics sample_snapshot
        (sample_log [10, 20, 30, 40, 50, 100, 200, 300, 400, 500])))) = Some 500
   \<and> p50Latency (performance (fst (getMetrics sample_snapshot (sample_log [])))) = Some 0"
proof -
  have l: "latencies (sample_log [10, 20, 30, 40, 50, 100, 200, 300, 400, 500])
     = [10, 20, 30, 40, 50, 100, 200, 300, 400, 500]"
    and e: "latencies (sample_log []) = []"
    by (simp_all only: sample_log_latencies)
  note ex = percentile_is_nearest_rank
    [of "sample_log [10, 20, 30, 40, 50, 100, 200, 300, 400, 500]" sample_snapshot,
      THEN conjunct2, THEN conjunct2, rule_format, OF l]
  note em = percentile_is_nearest_rank
    [of "sample_log []" sample_snapshot, THEN conjunct2, THEN conjunct1, rule_format, OF e]
  show ?thesis using l ex em by blast
qed

text \<open>
  Claim C6. Percentile monotonicity: for a non-empty duration log the snapshot has
  \<open>p50Latency \<le> p95Latency \<le> p99Latency\<close>.
\<close>

theorem percentile_monotone:
  "latencies s \<noteq> [] \<longrightarrow>
     (\<exists>a b c. p50Latency (performance (fst (getMetrics rd s))) = Some a
        \<and> p95Latency (performance (fst (getMetrics rd s))) = Some b
        \<and> p99Latency (performance (fst (getMetrics rd s))) = Some c
        \<and> a \<le> b \<and> b \<le> c)"
proof
  assume ne: "latencies s \<noteq> []"
  obtain a b where ab: "percentile (sort (latencies s)) (50 / 100) = Some a"
    "percentile (sort (latencies s)) (95 / 100) = Some b" "a \<le> b"
    using percentile_mono [OF ne, of "50 / 100" "95 / 100"] by auto
  obtain b' c where bc: "percentile (sort (latencies s)) (95 / 100) = Some b'"
    "percentile (sort (latencies s)) (99 / 100) = Some c" "b' \<le> c"
    using percentile_mono [OF ne, of "95 / 100" "99 / 100"] by auto
  show "\<exists>a b c. p50Latency (performance (fst (getMetrics rd s))) = Some a
        \<and> p95Latency (performance (fst (getMetrics rd s))) = Some b
        \<and> p99Latency (performance (fst (getMetrics rd s))) = Some c
        \<and> a \<le> b \<and> b \<le> c"
    using ab bc by (simp add: getMetrics_performance performance_fields)
qed

theorem percentile_monotone_witness:
  "latencies (sample_log [30, 10, 20]) \<noteq> []
   \<and> (\<exists>a b c. p50Latency (performance (fst (getMetrics sample_snapshot (sample_log [30, 10, 20])))) = Some a
        \<and> p95Latency (performance (fst (getMetrics sample_snapshot (sample_log [30, 10, 20])))) = Some b
        \<and> p99Latency (performance (fst (getMetrics sample_snapshot (sample_log [30, 10, 20])))) = Some c
        \<and> a \<le> b \<and> b \<le> c)"
  using percentile_monotone [of "sample_log [30, 10, 20]" sample_snapshot]
  by (simp add: sample_log_latencies)

section \<open>Success and error rates\<close>



section \<open>Per-name aggregates of tool calls\<close>

lemma tool_step_map_of:
  "map_of (tool_step M c) n =
     (if n = toolName c then map_of (tool_step M c) (toolName c) else map_of M n)"
  by (simp add: tool_step_def Let_def map_of_map_set)

lemma tool_step_distinct: "distinct (map fst M) \<Longrightarrow> distinct (map fst (tool_step M c))"
  by (simp add: tool_step_def Let_def distinct_map_set)

lemma tool_fold_distinct: "distinct (map fst (foldl tool_step [] calls))"
  by (induction calls rule: rev_induct) (simp_all add: tool_step_distinct)

lemma tool_step_entry:
  "\<exists>e. map_of (tool_step M c) (toolName c) = Some e
     \<and> tm_name e = (case map_of M (toolName c) of None \<Rightarrow> toolName c | Some m \<Rightarrow> tm_name m)
     \<and> callCount e = (case map_of M (toolName c) of None \<Rightarrow> 0 | Some m \<Rightarrow> callCount m) + 1
     \<and> successCount e = (case map_of M (toolName c) of None \<Rightarrow> 0 | Some m \<Rightarrow> successCount m)
                          + (if status c = Success then 1 else 0)
     \<and> errorCount e = (case map_of M (toolName c) of None \<Rightarrow> 0 | Some m \<Rightarrow> errorCount m)
                        + (if status c = Error then 1 else 0)"
  by (simp add: tool_step_def Let_def map_of_map_set split: option.splits)

lemma tool_fold_counts:
  "case map_of (foldl tool_step [] calls) n of
     None \<Rightarrow> n \<notin> toolName ` set calls
   | Some m \<Rightarrow> n \<in> toolName ` set calls \<and> counts_ok calls n m"
proof (induction calls rule: rev_induct)
  case Nil
  then show ?case by simp
next
  case (snoc c calls)
  define M where "M = foldl tool_step [] calls"
  have step: "foldl tool_step [] (calls @ [c]) = tool_step M c"
    by (simp add: M_def)
  have IH: "case map_of M n of
     None \<Rightarrow> n \<notin> toolName ` set calls
   | Some m \<Rightarrow> n \<in> toolName ` set calls \<and> counts_ok calls n m"
    using snoc by (simp only: M_def)
  show ?case
  proof (cases "n = toolName c")
    case False
    then have "map_of (tool_step M c) n = map_of M n"
      using tool_step_map_of [of M c n] by simp
    then show ?thesis using IH False unfolding step
      by (auto simp: counts_ok_def split: option.splits)
  next
    case True
    obtain e where e: "map_of (tool_step M c) (toolName c) = Some e"
      "tm_name e = (case map_of M (toolName c) of None \<Rightarrow> toolName c | Some m \<Rightarrow> tm_name m)"
      "callCount e = (case map_of M (toolName c) of None \<Rightarrow> 0 | Some m \<Rightarrow> callCount m) + 1"
      "successCount e = (case map_of M (toolName c) of None \<Rightarrow> 0 | Some m \<Rightarrow> successCount m)
                          + (if status c = Success then 1 else 0)"
      "errorCount e = (case map_of M (toolName c) of None \<Rightarrow> 0 | Some m \<Rightarrow> errorCount m)
                        + (if status c = Error then 1 else 0)"
      using tool_step_entry [of M c] by blast
    show ?thesis
    proof (cases "map_of M n")
      case None
      then have "n \<notin> toolName ` set calls" using IH by simp
      then have z: "filter (\<lambda>c. toolName c = n) calls = []"
        "filter (\<lambda>c. toolName c = n \<and> status c = Success) calls = []"
        "filter (\<lambda>c. toolName c = n \<and> status c = Error) calls = []"
        by (auto simp: filter_empty_conv)
      show ?thesis unfolding step using None True z e
        by (simp add: counts_ok_def)
    next
      case (Some m)
      then have "counts_ok calls n m" using IH by simp
      then show ?thesis unfolding step using Some True e
        by (simp add: counts_ok_def)
    qed
  qed
qed

lemma tool_fold_names:
  assumes "(k, m) \<in> set (foldl tool_step [] calls)"
  shows "tm_name m = k"
proof -
  have "map_of (foldl tool_step [] calls) k = Some m"
    using assms tool_fold_distinct [of calls] by simp
  then show ?thesis
    using tool_fold_counts [where calls = calls and n = k] by (simp add: counts_ok_def)
qed

lemma tool_lookup:
  "find (\<lambda>t. tm_name t = n) (fst (calculateToolMetrics s)) =
     map_option (\<lambda>m. m\<lparr> avgDuration :=
         average (map (\<lambda>c. the (duration c))
           (filter (\<lambda>c. toolName c = n \<and> duration c \<noteq> None) (toolCalls s))) \<rparr>)
       (map_of (foldl tool_step [] (toolCalls s)) n)"
proof -
  define M where "M = foldl tool_step [] (toolCalls s)"
  define f where "f = (\<lambda>name (metrics :: ToolMetrics). metrics\<lparr> avgDuration :=
         average (map (\<lambda>c. the (duration c))
           (filter (\<lambda>c. toolName c = name \<and> duration c \<noteq> None) (toolCalls s))) \<rparr>)"
  define M' where "M' = map (\<lambda>(k, v). (k, f k v)) M"
  have res: "fst (calculateToolMetrics s) = map snd M'"
    by (simp add: calculateToolMetrics_def Let_def M'_def M_def f_def)
  have keys: "map fst M' = map fst M"
    by (simp add: M'_def case_prod_beta comp_def)
  have d: "distinct (map fst M')"
    using tool_fold_distinct [of "toolCalls s"] by (simp add: keys M_def)
  have nm: "\<forall>(k, m) \<in> set M'. tm_name m = k"
    using tool_fold_names [of _ _ "toolCalls s"] by (auto simp: M'_def M_def f_def)
  have "find (\<lambda>t. tm_name t = n) (map snd M') = map_of M' n"
    using d nm by (rule find_by_key)
  also have "\<dots> = map_option (f n) (map_of M n)"
    by (simp add: M'_def map_of_map_keyed)
  finally show ?thesis by (simp add: res f_def M_def)
qed

lemma tool_aggregate_of_log:
  assumes "n \<in> toolName ` set (toolCalls s)"
  shows "\<exists>m. tool_aggregate (fst (getMetrics rd s)) n = Some m
     \<and> tm_name m = n
     \<and> callCount m = length (filter (\<lambda>c. toolName c = n) (toolCalls s))
     \<and> successCount m = length (filter (\<lambda>c. toolName c = n \<and> status c = Success) (toolCalls s))
     \<and> errorCount m = length (filter (\<lambda>c. toolName c = n \<and> status c = Error) (toolCalls s))
     \<and> avgDuration m = mean (map (\<lambda>c. the (duration c))
           (filter (\<lambda>c. toolName c = n \<and> duration c \<noteq> None) (toolCalls s)))"
proof -
  obtain m0 where m0: "map_of (foldl tool_step [] (toolCalls s)) n = Some m0"
    and ok: "counts_ok (toolCalls s) n m0"
    using tool_fold_counts [where calls = "toolCalls s" and n = n] assms by (auto split: option.splits)
  show ?thesis
    using m0 ok
    by (simp add: tool_aggregate_def getMetrics_tools tool_lookup counts_ok_def average_mean)
qed

lemma filter_named_records:
  assumes "\<forall>(rd, call) \<in> set cs. toolName call = name"
  shows "length (filter (\<lambda>c. toolName c = name \<and> Q (status c))
            (map (\<lambda>(rd, call). tool_record rd call) cs))
         = length (filter (\<lambda>(rd, call). Q (status call)) cs)"
  using assms by (induction cs) auto

lemma named_records_all:
  assumes "\<forall>(rd, call) \<in> set cs. toolName call = name"
  shows "length (filter (\<lambda>c. toolName c = name) (map (\<lambda>(rd, call). tool_record rd call) cs))
         = length cs"
  using assms by (induction cs) auto

lemma named_records_durations:
  assumes "\<forall>(rd, call) \<in> set cs. toolName call = name"
  shows "map (\<lambda>c. the (duration c))
           (filter (\<lambda>c. toolName c = name \<and> duration c \<noteq> None)
              (map (\<lambda>(rd, call). tool_record rd call) cs))
         = supplied_durations cs"
  using assms by (induction cs) (auto simp: supplied_durations_def)

lemma unnamed_filter:
  assumes "name \<notin> toolName ` set calls"
  shows "filter (\<lambda>c. toolName c = name \<and> Q c) calls = []"
    and "filter (\<lambda>c. toolName c = name) calls = []"
  using assms by (auto simp: filter_empty_conv)

lemma success_error_split:
  assumes "\<forall>(rd, call) \<in> set cs. status call = Success \<or> status call = Error"
  shows "length (filter (\<lambda>(rd, call). status call = Success) cs)
         + length (filter (\<lambda>(rd, call). status call = Error) cs) = length (cs :: (ingest_reads \<times> tool_call_fields) list)"
  using assms by (induction cs) auto


text \<open>
  Claim C3. After a sequence of tool-call ingestions on one name, \<open>N\<close> of them with
  status success and \<open>M\<close> with status error, the aggregate of that name in the
  snapshot has \<open>callCount = N + M\<close>, \<open>successCount = N\<close>, \<open>errorCount = M\<close> and
  \<open>avgDuration\<close> the arithmetic mean of the durations supplied (0 when there are
  none). The name has no earlier call in the log the sequence starts from. The witness
  is the case of two successes and one failure with durations 100, 200 and 50:
  \<open>callCount = 3\<close>, \<open>successCount = 2\<close>, \<open>errorCount = 1\<close>, \<open>avgDuration = 350 / 3\<close>.
\<close>

theorem per_name_tool_aggregation:
  assumes "cs \<noteq> []"
    and "\<forall>(rd, call) \<in> set cs. toolName call = name \<and> (status call = Success \<or> status call = Error)"
    and "name \<notin> toolName ` set (toolCalls s0)"
  shows "\<exists>m. tool_aggregate (fst (getMetrics rd' (recordToolCalls cs s0))) name = Some m
     \<and> callCount m = length (filter (\<lambda>(rd, call). status call = Success) cs)
                     + length (filter (\<lambda>(rd, call). status call = Error) cs)
     \<and> callCount m = length cs
     \<and> successCount m = length (filter (\<lambda>(rd, call). status call = Success) cs)
     \<and> errorCount m = length (filter (\<lambda>(rd, call). status call = Error) cs)
     \<and> avgDuration m = mean (supplied_durations cs)"
proof -
  define s where "s = recordToolCalls cs s0"
  have named: "\<forall>(rd, call) \<in> set cs. toolName call = name"
    and stat: "\<forall>(rd, call) \<in> set cs. status call = Success \<or> status call = Error"
    using assms(2) by auto
  have log: "toolCalls s = toolCalls s0 @ map (\<lambda>(rd, call). tool_record rd call) cs"
    by (simp add: s_def recordToolCalls_toolCalls)
  obtain rd call where "(rd, call) \<in> set cs"
    using assms(1) by (cases cs) auto
  then have "toolName (tool_record rd call) = name \<and> tool_record rd call \<in> set (toolCalls s)"
    using named by (force simp: log)
  then have "name \<in> toolName ` set (toolCalls s)" by blast
  then obtain m where m: "tool_aggregate (fst (getMetrics rd' s)) name = Some m"
    "callCount m = length (filter (\<lambda>c. toolName c = name) (toolCalls s))"
    "successCount m = length (filter (\<lambda>c. toolName c = name \<and> status c = Success) (toolCalls s))"
    "errorCount m = length (filter (\<lambda>c. toolName c = name \<and> status c = Error) (toolCalls s))"
    "avgDuration m = mean (map (\<lambda>c. the (duration c))
           (filter (\<lambda>c. toolName c = name \<and> duration c \<noteq> None) (toolCalls s)))"
    using tool_aggregate_of_log [of name s rd'] by blast
  have c: "callCount m = length cs"
    using m(2) unnamed_filter(2) [OF assms(3)] named_records_all [OF named]
    by (simp add: log)
  have su: "successCount m = length (filter (\<lambda>(rd, call). status call = Success) cs)"
    using m(3) unnamed_filter(1) [OF assms(3), of "\<lambda>c. status c = Success"]
      filter_named_records [OF named, of "\<lambda>st. st = Success"]
    by (simp add: log)
  have er: "errorCount m = length (filter (\<lambda>(rd, call). status call = Error) cs)"
    using m(4) unnamed_filter(1) [OF assms(3), of "\<lambda>c. status c = Error"]
      filter_named_records [OF named, of "\<lambda>st. st = Error"]
    by (simp add: log)
  have av: "avgDuration m = mean (supplied_durations cs)"
    using m(5) unnamed_filter(1) [OF assms(3), of "\<lambda>c. duration c \<noteq> None"]
      named_records_durations [OF named]
    by (simp add: log)
  show ?thesis
    using m(1) c su er av success_error_split [OF stat] by (simp add: s_def)
qed

theorem per_name_tool_aggregation_witness:
  "\<exists>m. tool_aggregate
          (fst (getMetrics sample_snapshot (recordToolCalls sample_mixed (new_collector sample_config 0))))
          (js ''read-file'') = Some m
     \<and> callCount m = 3 \<and> successCount m = 2 \<and> errorCount m = 1 \<and> avgDuration m = 350 / 3"
proof -
  have h1: "sample_mixed \<noteq> []"
    by (simp add: sample_mixed_def)
  have h2: "\<forall>(rd, call) \<in> set sample_mixed.
      toolName call = js ''read-file'' \<and> (status call = Success \<or> status call = Error)"
    by (simp add: sample_mixed_def sample_call_def)
  have h3: "js ''read-file'' \<notin> toolName ` set (toolCalls (new_collector sample_config 0))"
    by (simp add: new_collector_def)
  have n: "length (filter (\<lambda>(rd, call). status call = Success) sample_mixed) = 2"
    "length (filter (\<lambda>(rd, call). status call = Error) sample_mixed) = 1"
    "mean (supplied_durations sample_mixed) = 350 / 3"
    by (simp_all add: sample_mixed_def sample_call_def supplied_durations_def mean_def)
  show ?thesis
    using per_name_tool_aggregation [OF h1 h2 h3, of sample_snapshot] by (auto simp: n)
qed

section \<open>Tool calls with status pending\<close>







section \<open>The eviction sweep\<close>

text \<open>
  Claim C8. After one eviction sweep at \<open>now\<close>, every tool-call, resource-access,
  prompt-call and error record older than the cutoff
  \<open>now - retentionDays \<times> 24 \<times> 60 \<times> 60 \<times> 1000\<close> is absent, the records at or after
  the cutoff are retained in their order, the duration log is cut to its most recent
  10000 entries at most, and the timestamps older than the cutoff are dropped.
\<close>

theorem eviction_sweep_postcondition:
  "toolCalls (cleanup now s)
     = filter (\<lambda>c. retention_cutoff now s \<le> of_int (timestamp c)) (toolCalls s)
   \<and> resourceAccesses (cleanup now s)
     = filter (\<lambda>r. retention_cutoff now s \<le> of_int (ra_timestamp r)) (resourceAccesses s)
   \<and> promptCalls (cleanup now s)
     = filter (\<lambda>p. retention_cutoff now s \<le> of_int (pc_timestamp p)) (promptCalls s)
   \<and> errors (cleanup now s)
     = filter (\<lambda>e. retention_cutoff now s \<le> of_int (el_timestamp e)) (errors s)
   \<and> requestTimestamps (cleanup now s)
     = filter (\<lambda>t. retention_cutoff now s \<le> of_int t) (requestTimestamps s)
   \<and> (\<forall>c. of_int (timestamp c) < retention_cutoff now s \<longrightarrow> c \<notin> set (toolCalls (cleanup now s)))
   \<and> (\<forall>r. of_int (ra_timestamp r) < retention_cutoff now s
          \<longrightarrow> r \<notin> set (resourceAccesses (cleanup now s)))
   \<and> (\<forall>p. of_int (pc_timestamp p) < retention_cutoff now s
          \<longrightarrow> p \<notin> set (promptCalls (cleanup now s)))
   \<and> (\<forall>e. of_int (el_timestamp e) < retention_cutoff now s \<longrightarrow> e \<notin> set (errors (cleanup now s)))
   \<and> (\<forall>t. of_int t < retention_cutoff now s \<longrightarrow> t \<notin> set (requestTimestamps (cleanup now s)))
   \<and> length (latencies (cleanup now s)) = min 10000 (length (latencies s))
   \<and> (\<exists>older. latencies s = older @ latencies (cleanup now s))"
proof -
  have "\<exists>older. latencies s = older @ drop (length (latencies s) - 10000) (latencies s)"
    by (metis append_take_drop_id)
  then show ?thesis
    by (auto simp: cleanup_def retention_cutoff_def slice_last_def Let_def)
qed

theorem eviction_sweep_postcondition_witness:
  "retention_cutoff 100000000 sample_aged = 13600000
   \<and> map timestamp (toolCalls sample_aged) = [0, 100000000]
   \<and> map timestamp (toolCalls (cleanup 100000000 sample_aged)) = [100000000]
   \<and> map el_timestamp (errors sample_aged) = [0]
   \<and> errors (cleanup 100000000 sample_aged) = []
   \<and> requestTimestamps (cleanup 100000000 sample_aged) = [100000000]
   \<and> latencies (cleanup 100000000 sample_aged) = [10, 20]
   \<and> length (latencies (cleanup 0
        ((new_collector sample_config 0)\<lparr> latencies := replicate 10001 5 \<rparr>))) = 10000"
  using eviction_sweep_postcondition [of 100000000 sample_aged]
    eviction_sweep_postcondition
      [of 0 "(new_collector sample_config 0)\<lparr> latencies := replicate 10001 5 \<rparr>"]
  by (simp add: sample_aged_def retention_cutoff_def recordToolCall_def recordRequest_def
      recordError_def sample_reads_def sample_call_def sample_config_def new_collector_def
      cleanup_def slice_last_def Let_def)

section \<open>The instrumentation wrapper\<close>



lemma wrapResource_outcome:
  "fst (wrapResource str name f rd as s) = f as"
  "f as = Returns v \<Longrightarrow> snd (wrapResource str name f rd as s)
     = recordResourceAccess (ingest rd)
         \<lparr> resourceUri = name, ra_operation = Read,
           ra_duration = Some (of_int (end_now rd - start_now rd)), ra_status = AccessSuccess,
           ra_error = None,
           bytesTransferred = Some (case v of JStr r \<Rightarrow> of_nat (length r) | _ \<Rightarrow> 0) \<rparr> s"
  "f as = Throws e \<Longrightarrow> snd (wrapResource str name f rd as s)
     = recordResourceAccess (ingest rd)
         \<lparr> resourceUri = name, ra_operation = Read,
           ra_duration = Some (of_int (end_now rd - start_now rd)), ra_status = AccessError,
           ra_error = Some (error_message str e), bytesTransferred = None \<rparr> s"
  "f as = Never \<Longrightarrow> snd (wrapResource str name f rd as s) = s"
  by (simp_all add: wrapResource_def Let_def split: outcome.splits)

lemma wrapPrompt_outcome:
  "fst (wrapPrompt str name f rd as s) = f as"
  "f as = Returns v \<Longrightarrow> snd (wrapPrompt str name f rd as s)
     = recordPromptCall (ingest rd)
         \<lparr> promptName = name, args = first_arg_or_empty as,
           pc_duration = Some (of_int (end_now rd - start_now rd)), pc_status = AccessSuccess,
           pc_error = None,
           tokensGenerated = Some (case v of JStr r \<Rightarrow> of_nat (length (split_ws r)) | _ \<Rightarrow> 0) \<rparr> s"
  "f as = Throws e \<Longrightarrow> snd (wrapPrompt str name f rd as s)
     = recordPromptCall (ingest rd)
         \<lparr> promptName = name, args = first_arg_or_empty as,
           pc_duration = Some (of_int (end_now rd - start_now rd)), pc_status = AccessError,
           pc_error = Some (error_message str e), tokensGenerated = None \<rparr> s"
  "f as = Never \<Longrightarrow> snd (wrapPrompt str name f rd as s) = s"
  by (simp_all add: wrapPrompt_def Let_def split: outcome.splits)



section \<open>Metrics derived from a result\<close>

lemma split_from_length: "length (split_from p cs) = length (split_from [] cs)"
proof (induction cs arbitrary: p)
  case Nil
  then show ?case by simp
next
  case (Cons c cs)
  show ?case
  proof (cases "is_space c")
    case True
    then show ?thesis by simp
  next
    case False
    then show ?thesis using Cons [of "p @ [c]"] Cons [of "[c]"] by simp
  qed
qed

lemma pieces_simps:
  "pieces [] = 1"
  "is_space c \<Longrightarrow> pieces (c # cs) = 1 + pieces (dropWhile is_space cs)"
  "\<not> is_space c \<Longrightarrow> pieces (c # cs) = pieces cs"
  using split_from_length [of "[c]" cs] by (simp_all add: pieces_def split_ws_def)

lemma pieces_skip_word: "pieces (dropWhile (\<lambda>x. \<not> is_space x) cs) = pieces cs"
  by (induction cs) (simp_all add: pieces_simps)

lemma word_count_skip_space: "word_count (dropWhile is_space cs) = word_count cs"
  by (induction cs) simp_all

lemma pieces_word_count:
  "pieces s = word_count s
     + (if s = [] \<or> is_space (hd s) then 1 else 0)
     + (if s \<noteq> [] \<and> is_space (last s) then 1 else 0)"
proof (induction s rule: length_induct)
  case (1 s)
  show ?case
  proof (cases s)
    case Nil
    then show ?thesis by (simp add: pieces_simps)
  next
    case (Cons c cs)
    show ?thesis
    proof (cases "is_space c")
      case True
      define u where "u = dropWhile is_space cs"
      have len: "length u < length s"
        by (simp add: u_def Cons length_dropWhile_le less_Suc_eq_le)
      have IH: "pieces u = word_count u
         + (if u = [] \<or> is_space (hd u) then 1 else 0)
         + (if u \<noteq> [] \<and> is_space (last u) then 1 else 0)"
        using 1 len by blast
      have p: "pieces s = 1 + pieces u" using True by (simp add: Cons pieces_simps u_def)
      have w: "word_count s = word_count u"
        using True by (simp add: Cons u_def word_count_skip_space)
      show ?thesis
      proof (cases "u = []")
        case True
        have "is_space (last s)"
          using dropWhile_Nil_last [of is_space cs c] True \<open>is_space c\<close> by (simp add: u_def Cons)
        then show ?thesis using p w True \<open>is_space c\<close> by (simp add: Cons pieces_simps)
      next
        case False
        have h: "\<not> is_space (hd u)" using False hd_dropWhile [of is_space cs] by (simp add: u_def)
        have l: "last s = last u" using False dropWhile_last [of is_space cs c] by (simp add: u_def Cons)
        show ?thesis using p w IH False h l \<open>is_space c\<close> by (simp add: Cons)
      qed
    next
      case False
      define t where "t = dropWhile (\<lambda>x. \<not> is_space x) cs"
      have len: "length t < length s"
        by (simp add: t_def Cons length_dropWhile_le less_Suc_eq_le)
      have IH: "pieces t = word_count t
         + (if t = [] \<or> is_space (hd t) then 1 else 0)
         + (if t \<noteq> [] \<and> is_space (last t) then 1 else 0)"
        using 1 len by blast
      have p: "pieces s = pieces t" using False by (simp add: Cons pieces_simps t_def pieces_skip_word)
      have w: "word_count s = 1 + word_count t" using False by (simp add: Cons t_def)
      show ?thesis
      proof (cases "t = []")
        case True
        have "\<not> is_space (last s)"
          using dropWhile_Nil_last [of "\<lambda>x. \<not> is_space x" cs c] True False by (simp add: t_def Cons)
        then show ?thesis using p w True False by (simp add: Cons pieces_simps)
      next
        case nonempty: False
        have h: "is_space (hd t)"
          using nonempty hd_dropWhile [of "\<lambda>x. \<not> is_space x" cs] by (simp add: t_def)
        have l: "last s = last t"
          using nonempty dropWhile_last [of "\<lambda>x. \<not> is_space x" cs c] by (simp add: t_def Cons)
        show ?thesis using p w IH nonempty h l False by (simp add: Cons)
      qed
    qed
  qed
qed

lemma resource_bytes_transferred:
  assumes "f as = Returns v"
  shows "bytesTransferred (last (resourceAccesses (snd (wrapResource str name f rd as s))))
     = Some (case v of JStr r \<Rightarrow> of_nat (length r) | _ \<Rightarrow> 0)"
    and "ra_status (last (resourceAccesses (snd (wrapResource str name f rd as s)))) = AccessSuccess"
  using assms by (simp_all add: wrapResource_outcome(2) recordResourceAccess_log)

lemma prompt_tokens_generated:
  assumes "f as = Returns v"
  shows "tokensGenerated (last (promptCalls (snd (wrapPrompt str name f rd as s))))
     = Some (case v of
               JStr r \<Rightarrow> of_nat (word_count r
                               + (if r = [] \<or> is_space (hd r) then 1 else 0)
                               + (if r \<noteq> [] \<and> is_space (last r) then 1 else 0))
             | _ \<Rightarrow> 0)"
    and "pc_status (last (promptCalls (snd (wrapPrompt str name f rd as s)))) = AccessSuccess"
proof -
  have "length (split_ws r) = word_count r
      + (if r = [] \<or> is_space (hd r) then 1 else 0)
      + (if r \<noteq> [] \<and> is_space (last r) then 1 else 0)" for r
    using pieces_word_count [of r] by (simp only: pieces_def)
  then show "tokensGenerated (last (promptCalls (snd (wrapPrompt str name f rd as s))))
     = Some (case v of
               JStr r \<Rightarrow> of_nat (word_count r
                               + (if r = [] \<or> is_space (hd r) then 1 else 0)
                               + (if r \<noteq> [] \<and> is_space (last r) then 1 else 0))
             | _ \<Rightarrow> 0)"
    using assms by (simp add: wrapPrompt_outcome(2) recordPromptCall_log split: jsval.splits)
  show "pc_status (last (promptCalls (snd (wrapPrompt str name f rd as s)))) = AccessSuccess"
    using assms by (simp add: wrapPrompt_outcome(2) recordPromptCall_log)
qed

text \<open>
  Claim C5. A wrapped resource reports the length of a string result as
  \<open>bytesTransferred\<close> and 0 for another result (\<open>resource_bytes_transferred\<close>). A
  wrapped prompt is to report the white-space-delimited word count of a string result as
  \<open>tokensGenerated\<close>; the source reports the number of pieces of \<open>split(/\s+/)\<close>,
  which is one more for a string that is empty or begins with white space, and one more
  for a string that ends with white space (\<open>prompt_tokens_generated\<close>). On the result
  \<open>hello world\<close> followed by a line feed it reports 3 for 2 words, on the empty
  string 1 for no word.
\<close>

theorem prompt_tokens_not_word_count:
  "tokensGenerated (last (promptCalls (snd
      (wrapPrompt sample_str (js ''code-review'')
         (\<lambda>as. Returns (JStr (js ''hello world'' @ [0x000A])))
         sample_wrap_reads [] (new_collector sample_config 0))))) = Some 3
   \<and> word_count (js ''hello world'' @ [0x000A]) = 2
   \<and> tokensGenerated (last (promptCalls (snd
      (wrapPrompt sample_str (js ''code-review'') (\<lambda>as. Returns (JStr []))
         sample_wrap_reads [] (new_collector sample_config 0))))) = Some 1
   \<and> word_count [] = 0"
  by (simp add: wrapPrompt_outcome(2) recordPromptCall_log split_ws_def js_def is_space_def)

end
